theory Spec2Isabelle
  imports Main "HOL-Library.Word"
begin

section \<open>Data model\<close>

text \<open>
  A \<open>std::string\<close> is a sequence of bytes, modelled as \<open>string\<close> (a list of 8-bit
  \<open>char\<close>s); a \<open>std::wstring\<close> on Windows is a sequence of 16-bit code units.
\<close>

type_synonym wchar_t = "16 word"
type_synonym wstring = "wchar_t list"
type_synonym DWORD = "32 word"
type_synonym NTSTATUS = "32 word"

text \<open>The fields of \<open>OSVERSIONINFOEXW\<close> that the plugin initialises or reads.\<close>

record OSVERSIONINFOEXW =
  dwOSVersionInfoSize :: DWORD
  dwMajorVersion :: DWORD
  dwMinorVersion :: DWORD
  dwBuildNumber :: DWORD

text \<open>
  The calls the plugin makes into the operating system and the C++/WinRT runtime.
  The host keeps them in a log, oldest first; the log is bookkeeping of the model and
  nothing in the program reads it.
\<close>

datatype os_call =
    Call_init_apartment
  | Call_uninit_apartment
  | Call_RtlGetVersion
  | Call_MultiByteToWideChar
  | Call_WideCharToMultiByte

text \<open>
  The \<open>std::numpunct<wchar_t>\<close> facet of a C++ locale, as far as an integer is formatted
  with it: the separator of digit groups and the group sizes. \<open>grouping\<close> is read as the
  standard says: element \<open>i\<close> is the number of digits of group \<open>i\<close>, counted from the
  right; the last element repeats; an element that is not positive or is \<open>CHAR_MAX\<close>
  ends the grouping; the empty string means no grouping.
\<close>

record numpunct =
  thousands_sep :: wchar_t
  grouping :: string

text \<open>
  The host as the plugin sees it: what \<open>RtlGetVersion\<close> answers (its status and the
  version record it writes on success), the facet of the process-global C++ locale, and
  the log of calls made so far.
\<close>

record host =
  version_status :: NTSTATUS
  version_info :: OSVERSIONINFOEXW
  global_numpunct :: numpunct
  os_calls :: "os_call list"

definition invoke :: "os_call \<Rightarrow> host \<Rightarrow> host" where
  "invoke c h = h\<lparr>os_calls := os_calls h @ [c]\<rparr>"

text \<open>
  \<open>flutter::EncodableValue\<close>, the value type of the standard method codec (the
  floating-point and typed-array alternatives are left out; the plugin builds only
  strings).
\<close>

datatype EncodableValue =
    EncodableNull
  | EncodableBool bool
  | EncodableInt32 "32 word"
  | EncodableInt64 "64 word"
  | EncodableString string
  | EncodableList "EncodableValue list"
  | EncodableMap "(EncodableValue \<times> EncodableValue) list"

record MethodCall =
  method_name :: string
  arguments :: EncodableValue

text \<open>
  The three member functions of \<open>flutter::MethodResult\<close>. A handler is modelled by the
  list of calls it makes on the result object it was handed, in order.
\<close>

datatype reply =
    Success EncodableValue
  | Error string string "EncodableValue option"
  | NotImplemented

section \<open>UTF-8 and UTF-16\<close>

text \<open>
  The two conversion routines of the operating system work on code units; they are
  modelled on natural numbers (bytes below 256, UTF-16 units below 65536) through Unicode
  code points. An ill-formed unit is replaced by U+FFFD, as the routines do when called
  with flags 0; how many replacement characters an ill-formed run yields differs between
  Windows versions, and nothing below depends on it.
\<close>

definition is_cont :: "nat \<Rightarrow> bool" where
  "is_cont b = (0x80 \<le> b \<and> b \<le> 0xBF)"

text \<open>
  \<open>utf8_seq b0 bs\<close>: the code point of the multi-byte sequence that starts with the lead
  byte \<open>b0\<close> and goes on in \<open>bs\<close>, with the number of bytes of \<open>bs\<close> it takes; \<open>None\<close>
  when no well-formed sequence starts here (Unicode Standard, table 3-7).
\<close>

definition utf8_seq :: "nat \<Rightarrow> nat list \<Rightarrow> (nat \<times> nat) option" where
  "utf8_seq b0 bs =
     (if 0xC2 \<le> b0 \<and> b0 \<le> 0xDF then
        (case bs of
           b1 # _ \<Rightarrow> if is_cont b1 then Some ((b0 - 0xC0) * 64 + (b1 - 0x80), 1) else None
         | _ \<Rightarrow> None)
      else if 0xE0 \<le> b0 \<and> b0 \<le> 0xEF then
        (case bs of
           b1 # b2 # _ \<Rightarrow>
             if (if b0 = 0xE0 then 0xA0 \<le> b1 \<and> b1 \<le> 0xBF
                 else if b0 = 0xED then 0x80 \<le> b1 \<and> b1 \<le> 0x9F
                 else is_cont b1) \<and> is_cont b2
             then Some ((b0 - 0xE0) * 4096 + (b1 - 0x80) * 64 + (b2 - 0x80), 2) else None
         | _ \<Rightarrow> None)
      else if 0xF0 \<le> b0 \<and> b0 \<le> 0xF4 then
        (case bs of
           b1 # b2 # b3 # _ \<Rightarrow>
             if (if b0 = 0xF0 then 0x90 \<le> b1 \<and> b1 \<le> 0xBF
                 else if b0 = 0xF4 then 0x80 \<le> b1 \<and> b1 \<le> 0x8F
                 else is_cont b1) \<and> is_cont b2 \<and> is_cont b3
             then Some ((b0 - 0xF0) * 262144 + (b1 - 0x80) * 4096 + (b2 - 0x80) * 64
                        + (b3 - 0x80), 3)
             else None
         | _ \<Rightarrow> None)
      else None)"

fun utf8_decode :: "nat list \<Rightarrow> nat list" where
  "utf8_decode [] = []"
| "utf8_decode (b0 # bs) =
     (if b0 < 0x80 then b0 # utf8_decode bs
      else case utf8_seq b0 bs of
             Some (cp, n) \<Rightarrow> cp # utf8_decode (drop n bs)
           | None \<Rightarrow> 0xFFFD # utf8_decode bs)"

definition utf8_encode :: "nat \<Rightarrow> nat list" where
  "utf8_encode cp =
     (if cp < 0x80 then [cp]
      else if cp < 0x800 then [0xC0 + cp div 64, 0x80 + cp mod 64]
      else if cp < 0x10000 then
        [0xE0 + cp div 4096, 0x80 + cp div 64 mod 64, 0x80 + cp mod 64]
      else
        [0xF0 + cp div 262144, 0x80 + cp div 4096 mod 64, 0x80 + cp div 64 mod 64,
         0x80 + cp mod 64])"

definition utf16_encode :: "nat \<Rightarrow> nat list" where
  "utf16_encode cp =
     (if cp < 0x10000 then [cp]
      else [0xD800 + (cp - 0x10000) div 1024, 0xDC00 + (cp - 0x10000) mod 1024])"

definition is_high_surrogate :: "nat \<Rightarrow> bool" where
  "is_high_surrogate u = (0xD800 \<le> u \<and> u \<le> 0xDBFF)"

definition is_low_surrogate :: "nat \<Rightarrow> bool" where
  "is_low_surrogate u = (0xDC00 \<le> u \<and> u \<le> 0xDFFF)"

fun utf16_decode :: "nat list \<Rightarrow> nat list" where
  "utf16_decode [] = []"
| "utf16_decode [u] = [if is_high_surrogate u \<or> is_low_surrogate u then 0xFFFD else u]"
| "utf16_decode (u1 # u2 # us) =
     (if is_high_surrogate u1 \<and> is_low_surrogate u2
      then (0x10000 + (u1 - 0xD800) * 1024 + (u2 - 0xDC00)) # utf16_decode us
      else (if is_high_surrogate u1 \<or> is_low_surrogate u1 then 0xFFFD else u1)
           # utf16_decode (u2 # us))"

definition utf8_to_utf16 :: "nat list \<Rightarrow> nat list" where
  "utf8_to_utf16 bs = concat (map utf16_encode (utf8_decode bs))"

definition utf16_to_utf8 :: "nat list \<Rightarrow> nat list" where
  "utf16_to_utf8 us = concat (map utf8_encode (utf16_decode us))"

section \<open>The operating system's conversion routines\<close>

text \<open>
  \<open>MultiByteToWideChar\<close> and \<open>WideCharToMultiByte\<close> belong to the operating system, not
  to the repository; they are modelled from their documented contract, for code page
  \<open>CP_UTF8\<close> and flags 0, which is how \<open>utils.h\<close> calls them. Each takes the source
  string, its length as an \<open>int\<close>, the destination buffer and its size, and gives back
  its return value and the buffer.
  \<^item> A source length of 0 makes the call fail: it returns 0 and writes nothing.
  \<^item> A negative source length (documented for -1) means that the source is read up to
    and including its terminating null; the storage of a \<open>std::string\<close> or
    \<open>std::wstring\<close> is followed by one.
  \<^item> A destination size of 0 asks for the size needed: the call returns it and writes
    nothing.
  \<^item> A destination too small for the result makes the call fail with 0.
  \<^item> Otherwise the converted units are written to the front of the buffer and their
    number is returned.
  The return value is an unbounded integer here; a result of more units than an \<open>int\<close>
  can count, which the routines cannot report, does not arise from the inputs that the
  theorems below are about. What a failed call leaves in the buffer is not specified; the
  buffer is taken to be unchanged, and \<open>utils.h\<close> never reads it after a failure of
  the first call, which makes the buffer empty.
\<close>

definition MultiByteToWideChar ::
  "string \<Rightarrow> int \<Rightarrow> wstring \<Rightarrow> int \<Rightarrow> host \<Rightarrow> (int \<times> wstring) \<times> host" where
  "MultiByteToWideChar lpMultiByteStr cbMultiByte lpWideCharStr cchWideChar h =
     (let h' = invoke Call_MultiByteToWideChar h;
          src = (if cbMultiByte < 0
                 then takeWhile (\<lambda>c. c \<noteq> CHR 0x00) lpMultiByteStr @ [CHR 0x00]
                 else take (nat cbMultiByte) lpMultiByteStr);
          out = map of_nat (utf8_to_utf16 (map of_char src)) :: wstring
      in if cbMultiByte = 0 \<or> cchWideChar < 0 then ((0, lpWideCharStr), h')
         else if cchWideChar = 0 then ((int (length out), lpWideCharStr), h')
         else if cchWideChar < int (length out) then ((0, lpWideCharStr), h')
         else ((int (length out), out @ drop (length out) lpWideCharStr), h'))"

definition WideCharToMultiByte ::
  "wstring \<Rightarrow> int \<Rightarrow> string \<Rightarrow> int \<Rightarrow> host \<Rightarrow> (int \<times> string) \<times> host" where
  "WideCharToMultiByte lpWideCharStr cchWideChar lpMultiByteStr cbMultiByte h =
     (let h' = invoke Call_WideCharToMultiByte h;
          src = (if cchWideChar < 0
                 then takeWhile (\<lambda>w. w \<noteq> 0) lpWideCharStr @ [0]
                 else take (nat cchWideChar) lpWideCharStr);
          out = map char_of (utf16_to_utf8 (map unat src)) :: string
      in if cchWideChar = 0 \<or> cbMultiByte < 0 then ((0, lpMultiByteStr), h')
         else if cbMultiByte = 0 then ((int (length out), lpMultiByteStr), h')
         else if cbMultiByte < int (length out) then ((0, lpMultiByteStr), h')
         else ((int (length out), out @ drop (length out) lpMultiByteStr), h'))"

section \<open>utils.h\<close>

text \<open>The cast \<open>(int)str.size()\<close>: the low 32 bits of the size, read as a signed value.\<close>

definition int_cast :: "nat \<Rightarrow> int" where
  "int_cast n = signed_take_bit 31 (int n)"

text \<open>
  \<open>string_to_wstring\<close>: empty input returns at once; otherwise one call for the size, a
  buffer of that many zero units, one call to fill it.
\<close>

definition string_to_wstring :: "string \<Rightarrow> host \<Rightarrow> wstring \<times> host" where
  "string_to_wstring str h =
     (if str = [] then ([], h)
      else
        let ((size_needed, _), h1) = MultiByteToWideChar str (int_cast (length str)) [] 0 h;
            wstrTo = replicate (nat size_needed) 0;
            ((_, wstrTo'), h2) =
              MultiByteToWideChar str (int_cast (length str)) wstrTo size_needed h1
        in (wstrTo', h2))"

definition wstring_to_string :: "wstring \<Rightarrow> host \<Rightarrow> string \<times> host" where
  "wstring_to_string wstr h =
     (if wstr = [] then ([], h)
      else
        let ((size_needed, _), h1) = WideCharToMultiByte wstr (int_cast (length wstr)) [] 0 h;
            strTo = replicate (nat size_needed) (CHR 0x00);
            ((_, strTo'), h2) =
              WideCharToMultiByte wstr (int_cast (length wstr)) strTo size_needed h1
        in (strTo', h2))"

section \<open>The wide string stream\<close>

text \<open>
  A \<open>std::wstringstream\<close> is the units written to it so far, with the locale it was
  constructed with: a default-constructed stream takes a copy of the process-global
  locale. A wide literal of ASCII characters has one unit per character. An
  \<open>unsigned long\<close> is inserted by \<open>num_put\<close>: its decimal digits, without sign or
  padding, grouped as the \<open>numpunct\<close> facet of the stream's locale says.
\<close>

record wstringstream =
  stream_numpunct :: numpunct
  buffer :: wstring

definition wide_literal :: "string \<Rightarrow> wstring" where
  "wide_literal s = map of_char s"

fun dec_digits :: "nat \<Rightarrow> nat list" where
  "dec_digits n = (if n < 10 then [n] else dec_digits (n div 10) @ [n mod 10])"

declare dec_digits.simps [simp del]

text \<open>
  The size of a digit group from an element of \<open>grouping\<close>; \<open>char\<close> is signed, so a byte
  of 128 or more is negative. \<open>None\<close>: the grouping ends here.
\<close>

definition group_size :: "char \<Rightarrow> nat option" where
  "group_size c =
     (let n = (of_char c :: nat) in if n = 0 \<or> 127 \<le> n then None else Some n)"

text \<open>
  \<open>group_digits gs sep rds\<close> puts the separators into the digits \<open>rds\<close>, which are given
  from the right (least significant first), as is the result.
\<close>

function group_digits :: "string \<Rightarrow> wchar_t \<Rightarrow> wstring \<Rightarrow> wstring" where
  "group_digits gs sep rds =
     (case gs of
        [] \<Rightarrow> rds
      | g # rest \<Rightarrow>
          (case group_size g of
             None \<Rightarrow> rds
           | Some k \<Rightarrow>
               if length rds \<le> k then rds
               else take k rds @ sep
                      # group_digits (if rest = [] then gs else rest) sep (drop k rds)))"
  by pat_completeness auto
termination
  by (relation "measure (\<lambda>(gs, sep, rds). length rds)")
    (auto simp: group_size_def Let_def split: if_splits)

declare group_digits.simps [simp del]

definition num_put_ulong :: "numpunct \<Rightarrow> DWORD \<Rightarrow> wstring" where
  "num_put_ulong np v =
     rev (group_digits (grouping np) (thousands_sep np)
            (rev (map (\<lambda>d. of_nat (48 + d)) (dec_digits (unat v)))))"

definition wstringstream_ctor :: "host \<Rightarrow> wstringstream" where
  "wstringstream_ctor h = \<lparr>stream_numpunct = global_numpunct h, buffer = []\<rparr>"

definition put_wstring :: "wstringstream \<Rightarrow> wstring \<Rightarrow> wstringstream" where
  "put_wstring ss lit = ss\<lparr>buffer := buffer ss @ lit\<rparr>"

definition put_ulong :: "wstringstream \<Rightarrow> DWORD \<Rightarrow> wstringstream" where
  "put_ulong ss v = ss\<lparr>buffer := buffer ss @ num_put_ulong (stream_numpunct ss) v\<rparr>"

definition stream_str :: "wstringstream \<Rightarrow> wstring" where
  "stream_str ss = buffer ss"

section \<open>The plugin\<close>

type_synonym registrar_ptr = nat

record FlutterP2pConnectionPlugin =
  registrar_member :: registrar_ptr

definition METHOD_CHANNEL_NAME :: string where
  "METHOD_CHANNEL_NAME = ''flutter_p2p_connection''"

text \<open>
  \<open>RtlGetVersion\<close>: the status the host answers with; on status 0 the caller's record is
  overwritten with the host's version (the size field stays the caller's).
\<close>

definition RtlGetVersion :: "OSVERSIONINFOEXW \<Rightarrow> host \<Rightarrow> (NTSTATUS \<times> OSVERSIONINFOEXW) \<times> host" where
  "RtlGetVersion os_info h =
     ((version_status h,
       if version_status h = 0
       then (version_info h)\<lparr>dwOSVersionInfoSize := dwOSVersionInfoSize os_info\<rparr>
       else os_info),
      invoke Call_RtlGetVersion h)"

text \<open>
  The constructor and the destructor. \<open>winrt::init_apartment\<close> is taken on its success
  path: the spec defines no error path for registration.
\<close>

definition FlutterP2pConnectionPlugin_ctor ::
  "registrar_ptr \<Rightarrow> host \<Rightarrow> FlutterP2pConnectionPlugin \<times> host" where
  "FlutterP2pConnectionPlugin_ctor registrar h =
     (\<lparr>registrar_member = registrar\<rparr>, invoke Call_init_apartment h)"

definition FlutterP2pConnectionPlugin_dtor ::
  "FlutterP2pConnectionPlugin \<Rightarrow> host \<Rightarrow> host" where
  "FlutterP2pConnectionPlugin_dtor this h = invoke Call_uninit_apartment h"

text \<open>
  \<open>HandleMethodCall\<close> returns the calls it makes on \<open>result\<close> and the host afterwards.
  Its body assigns to no member of \<open>this\<close>, so no plugin is returned.
\<close>

definition HandleMethodCall ::
  "FlutterP2pConnectionPlugin \<Rightarrow> MethodCall \<Rightarrow> host \<Rightarrow> reply list \<times> host" where
  "HandleMethodCall this method_call h =
     (let method = method_name method_call in
      if method = ''getPlatformVersion'' then
        let os_info = \<lparr>dwOSVersionInfoSize = 284, dwMajorVersion = 0, dwMinorVersion = 0,
                       dwBuildNumber = 0\<rparr>;
            ((status, os_info), h1) = RtlGetVersion os_info h
        in if status = 0 then
             let ss = wstringstream_ctor h1;
                 ss = put_wstring ss (wide_literal ''Windows '');
                 ss = put_ulong ss (dwMajorVersion os_info);
                 ss = put_wstring ss (wide_literal ''.'');
                 ss = put_ulong ss (dwMinorVersion os_info);
                 ss = put_wstring ss (wide_literal '' Build '');
                 ss = put_ulong ss (dwBuildNumber os_info);
                 (str, h2) = wstring_to_string (stream_str ss) h1
             in ([Success (EncodableString str)], h2)
           else ([Error ''VERSION_ERROR'' ''Failed to get Windows version.'' None], h1)
      else ([NotImplemented], h))"

section \<open>Registration\<close>

text \<open>
  What \<open>RegisterWithRegistrar\<close> touches of the registrar: the handler that its messenger
  holds for each channel name, and the plugins it owns. A method call handler takes the
  call and answers with the calls made on the result object.
\<close>

type_synonym method_call_handler = "MethodCall \<Rightarrow> host \<Rightarrow> reply list \<times> host"

record PluginRegistrarWindows =
  handlers :: "string \<rightharpoonup> method_call_handler"
  plugins :: "FlutterP2pConnectionPlugin list"

record MethodChannel =
  channel_name :: string

definition SetMethodCallHandler ::
  "MethodChannel \<Rightarrow> method_call_handler \<Rightarrow> PluginRegistrarWindows \<Rightarrow> PluginRegistrarWindows" where
  "SetMethodCallHandler channel handler r = r\<lparr>handlers := (handlers r)(channel_name channel \<mapsto> handler)\<rparr>"

definition AddPlugin ::
  "FlutterP2pConnectionPlugin \<Rightarrow> PluginRegistrarWindows \<Rightarrow> PluginRegistrarWindows" where
  "AddPlugin plugin r = r\<lparr>plugins := plugins r @ [plugin]\<rparr>"

definition RegisterWithRegistrar ::
  "registrar_ptr \<Rightarrow> PluginRegistrarWindows \<Rightarrow> host \<Rightarrow> PluginRegistrarWindows \<times> host" where
  "RegisterWithRegistrar registrar r h =
     (let (plugin, h1) = FlutterP2pConnectionPlugin_ctor registrar h;
          channel = \<lparr>channel_name = METHOD_CHANNEL_NAME\<rparr>;
          r1 = SetMethodCallHandler channel
                 (\<lambda>call. HandleMethodCall plugin call) r;
          r2 = AddPlugin plugin r1
      in (r2, h1))"

text \<open>A run of calls delivered to the plugin one after the other.\<close>

fun dispatch_all ::
  "FlutterP2pConnectionPlugin \<Rightarrow> MethodCall list \<Rightarrow> host \<Rightarrow> reply list list \<times> host" where
  "dispatch_all this [] h = ([], h)"
| "dispatch_all this (c # cs) h =
     (let (r, h1) = HandleMethodCall this c h;
          (rs, h2) = dispatch_all this cs h1
      in (r # rs, h2))"

section \<open>Notions of the specification\<close>

text \<open>
  Well-formed UTF-8, row by row as in table 3-7 of the Unicode Standard; a
  \<open>std::string\<close> is valid UTF-8 when its bytes are well formed.
\<close>

definition in_range :: "nat \<Rightarrow> nat \<Rightarrow> nat \<Rightarrow> bool" where
  "in_range lo hi b = (lo \<le> b \<and> b \<le> hi)"

fun well_formed_utf8 :: "nat list \<Rightarrow> bool" where
  "well_formed_utf8 [] = True"
| "well_formed_utf8 (b0 # bs) =
     (if b0 \<le> 0x7F then well_formed_utf8 bs
      else if in_range 0xC2 0xDF b0 then
        (case bs of b1 # r \<Rightarrow> in_range 0x80 0xBF b1 \<and> well_formed_utf8 r | _ \<Rightarrow> False)
      else if b0 = 0xE0 then
        (case bs of b1 # b2 # r \<Rightarrow>
           in_range 0xA0 0xBF b1 \<and> in_range 0x80 0xBF b2 \<and> well_formed_utf8 r | _ \<Rightarrow> False)
      else if in_range 0xE1 0xEC b0 then
        (case bs of b1 # b2 # r \<Rightarrow>
           in_range 0x80 0xBF b1 \<and> in_range 0x80 0xBF b2 \<and> well_formed_utf8 r | _ \<Rightarrow> False)
      else if b0 = 0xED then
        (case bs of b1 # b2 # r \<Rightarrow>
           in_range 0x80 0x9F b1 \<and> in_range 0x80 0xBF b2 \<and> well_formed_utf8 r | _ \<Rightarrow> False)
      else if in_range 0xEE 0xEF b0 then
        (case bs of b1 # b2 # r \<Rightarrow>
           in_range 0x80 0xBF b1 \<and> in_range 0x80 0xBF b2 \<and> well_formed_utf8 r | _ \<Rightarrow> False)
      else if b0 = 0xF0 then
        (case bs of b1 # b2 # b3 # r \<Rightarrow>
           in_range 0x90 0xBF b1 \<and> in_range 0x80 0xBF b2 \<and> in_range 0x80 0xBF b3
           \<and> well_formed_utf8 r | _ \<Rightarrow> False)
      else if in_range 0xF1 0xF3 b0 then
        (case bs of b1 # b2 # b3 # r \<Rightarrow>
           in_range 0x80 0xBF b1 \<and> in_range 0x80 0xBF b2 \<and> in_range 0x80 0xBF b3
           \<and> well_formed_utf8 r | _ \<Rightarrow> False)
      else if b0 = 0xF4 then
        (case bs of b1 # b2 # b3 # r \<Rightarrow>
           in_range 0x80 0x8F b1 \<and> in_range 0x80 0xBF b2 \<and> in_range 0x80 0xBF b3
           \<and> well_formed_utf8 r | _ \<Rightarrow> False)
      else False)"

definition valid_utf8 :: "string \<Rightarrow> bool" where
  "valid_utf8 s = well_formed_utf8 (map of_char s)"

text \<open>A Unicode scalar value: a code point that is not a surrogate.\<close>

definition scalar :: "nat \<Rightarrow> bool" where
  "scalar cp = (cp < 0x110000 \<and> \<not> (0xD800 \<le> cp \<and> cp \<le> 0xDFFF))"

text \<open>
  The decimal numeral of a number as a byte string, and the pattern
  \<open><word> <int>.<int> Build <int>\<close> of the version string.
\<close>

definition decimal :: "nat \<Rightarrow> string" where
  "decimal n = map (\<lambda>d. char_of (48 + d)) (dec_digits n)"

definition is_digit :: "char \<Rightarrow> bool" where
  "is_digit c = (48 \<le> (of_char c :: nat) \<and> (of_char c :: nat) \<le> 57)"

definition is_letter :: "char \<Rightarrow> bool" where
  "is_letter c = ((65 \<le> (of_char c :: nat) \<and> (of_char c :: nat) \<le> 90)
                 \<or> (97 \<le> (of_char c :: nat) \<and> (of_char c :: nat) \<le> 122))"

definition is_int :: "string \<Rightarrow> bool" where
  "is_int s = (s \<noteq> [] \<and> list_all is_digit s)"

definition is_word :: "string \<Rightarrow> bool" where
  "is_word s = (s \<noteq> [] \<and> list_all is_letter s)"

definition version_pattern :: "string \<Rightarrow> bool" where
  "version_pattern s =
     (\<exists>w a b c. s = w @ '' '' @ a @ ''.'' @ b @ '' Build '' @ c
        \<and> is_word w \<and> is_int a \<and> is_int b \<and> is_int c)"

text \<open>
  The life of one plugin instance: construction, the calls delivered to it, destruction.
\<close>

definition plugin_lifetime ::
  "registrar_ptr \<Rightarrow> MethodCall list \<Rightarrow> host \<Rightarrow> reply list list \<times> host" where
  "plugin_lifetime registrar calls h =
     (let (plugin, h1) = FlutterP2pConnectionPlugin_ctor registrar h;
          (rs, h2) = dispatch_all plugin calls h1;
          h3 = FlutterP2pConnectionPlugin_dtor plugin h2
      in (rs, h3))"

text \<open>
  A locale inserts no group separator into any number when its grouping is empty or
  ends at once; the classic locale is such a locale.
\<close>

definition no_digit_grouping :: "numpunct \<Rightarrow> bool" where
  "no_digit_grouping np =
     (case grouping np of [] \<Rightarrow> True | g # _ \<Rightarrow> group_size g = None)"

definition classic_numpunct :: numpunct where
  "classic_numpunct = \<lparr>thousands_sep = 0x2C, grouping = []\<rparr>"

text \<open>
  Concrete data for the examples: a host that reports Windows 10.0, build 19045, under
  the classic locale, and the same host under a locale that groups digits by three with
  a comma.
\<close>

definition example_host :: host where
  "example_host =
     \<lparr>version_status = 0,
      version_info = \<lparr>dwOSVersionInfoSize = 284, dwMajorVersion = 10, dwMinorVersion = 0,
                      dwBuildNumber = 19045\<rparr>,
      global_numpunct = classic_numpunct,
      os_calls = []\<rparr>"

definition grouping_host :: host where
  "grouping_host =
     example_host\<lparr>global_numpunct := \<lparr>thousands_sep = 0x2C, grouping = [CHR 0x03]\<rparr>\<rparr>"

text \<open>What the stream of \<open>HandleMethodCall\<close> holds when the version has been written.\<close>

definition version_wstring :: "numpunct \<Rightarrow> OSVERSIONINFOEXW \<Rightarrow> wstring" where
  "version_wstring np v =
     stream_str
       (put_ulong
          (put_wstring
             (put_ulong
                (put_wstring
                   (put_ulong
                      (put_wstring \<lparr>stream_numpunct = np, buffer = []\<rparr>
                         (wide_literal ''Windows ''))
                      (dwMajorVersion v))
                   (wide_literal ''.''))
                (dwMinorVersion v))
             (wide_literal '' Build ''))
          (dwBuildNumber v))"

definition example_plugin :: FlutterP2pConnectionPlugin where
  "example_plugin = \<lparr>registrar_member = 1\<rparr>"

text \<open>The version string of the specification: \<open>Windows <major>.<minor> Build <build>\<close>.\<close>

definition version_string :: "OSVERSIONINFOEXW \<Rightarrow> string" where
  "version_string v =
     ''Windows '' @ decimal (unat (dwMajorVersion v)) @ ''.''
       @ decimal (unat (dwMinorVersion v)) @ '' Build '' @ decimal (unat (dwBuildNumber v))"

text \<open>
  What one call, and a run of calls, add to the log of the host (used to state what the
  dispatcher does to the host; the calls of a run all see the same version state).
\<close>

definition dispatch_log :: "MethodCall \<Rightarrow> host \<Rightarrow> os_call list" where
  "dispatch_log c h =
     (if method_name c = ''getPlatformVersion'' then
        if version_status h = 0
        then [Call_RtlGetVersion, Call_WideCharToMultiByte, Call_WideCharToMultiByte]
        else [Call_RtlGetVersion]
      else [])"

fun dispatch_all_log :: "MethodCall list \<Rightarrow> host \<Rightarrow> os_call list" where
  "dispatch_all_log [] h = []"
| "dispatch_all_log (c # cs) h = dispatch_log c h @ dispatch_all_log cs h"

text \<open>More concrete data for the examples.\<close>

definition example_call :: MethodCall where
  "example_call = \<lparr>method_name = ''getPlatformVersion'', arguments = EncodableNull\<rparr>"

definition example_string :: string where
  "example_string = [CHR ''a'', CHR 0xC3, CHR 0xA9, CHR 0xE2, CHR 0x82, CHR 0xAC, CHR 0xF0, CHR 0x9F, CHR 0x98, CHR 0x80]"

section \<open>Arithmetic of the encodings\<close>

lemma div_block: "(z::nat) < c \<Longrightarrow> (q * c + z) div c = q"
  by simp

lemma mod_block: "(z::nat) < c \<Longrightarrow> (q * c + z) mod c = z"
  by simp

lemma encode_two_bytes:
  assumes "0xC2 \<le> b0" "b0 \<le> 0xDF" "0x80 \<le> b1" "b1 \<le> 0xBF"
  shows "utf8_encode ((b0 - 0xC0) * 64 + (b1 - 0x80)) = [b0, b1]"
    and "scalar ((b0 - 0xC0) * 64 + (b1 - 0x80))"
    and "(b0 - 0xC0) * 64 + (b1 - 0x80) < 0x800"
proof -
  define x y where "x = b0 - 0xC0" and "y = b1 - 0x80"
  have b: "b0 = 0xC0 + x" "b1 = 0x80 + y" and r: "2 \<le> x" "x \<le> 31" "y < 64"
    using assms by (auto simp: x_def y_def)
  let ?cp = "x * 64 + y"
  have d: "?cp div 64 = x" "?cp mod 64 = y"
    using r(3) by (rule div_block, rule mod_block)
  have lo: "0x80 \<le> ?cp" and hi: "?cp < 0x800" using r by linarith+
  have "utf8_encode ?cp = [b0, b1]" using lo hi d b by (simp add: utf8_encode_def)
  then show "utf8_encode ((b0 - 0xC0) * 64 + (b1 - 0x80)) = [b0, b1]"
    by (simp only: x_def y_def)
  have "scalar ?cp" using hi by (simp add: scalar_def)
  then show "scalar ((b0 - 0xC0) * 64 + (b1 - 0x80))"
    by (simp only: x_def y_def)
  show "(b0 - 0xC0) * 64 + (b1 - 0x80) < 0x800"
    using hi by (simp only: x_def y_def)
qed

lemma div_mod_three:
  fixes x y z :: nat
  assumes "y < 64" "z < 64"
  shows "(x * 4096 + y * 64 + z) div 4096 = x"
    and "(x * 4096 + y * 64 + z) div 64 mod 64 = y"
    and "(x * 4096 + y * 64 + z) mod 64 = z"
proof -
  have e1: "x * 4096 + y * 64 + z = x * 4096 + (y * 64 + z)" by simp
  have e2: "x * 4096 + y * 64 + z = (x * 64 + y) * 64 + z" by simp
  have r: "y * 64 + z < 4096" using assms by simp
  show "(x * 4096 + y * 64 + z) div 4096 = x"
    unfolding e1 by (rule div_block [OF r])
  have "(x * 4096 + y * 64 + z) div 64 = x * 64 + y"
    unfolding e2 by (rule div_block [OF assms(2)])
  then show "(x * 4096 + y * 64 + z) div 64 mod 64 = y"
    using mod_block [OF assms(1), of x] by simp
  show "(x * 4096 + y * 64 + z) mod 64 = z"
    unfolding e2 by (rule mod_block [OF assms(2)])
qed

lemma div_mod_four:
  fixes x y z w :: nat
  assumes "y < 64" "z < 64" "w < 64"
  shows "(x * 262144 + y * 4096 + z * 64 + w) div 262144 = x"
    and "(x * 262144 + y * 4096 + z * 64 + w) div 4096 mod 64 = y"
    and "(x * 262144 + y * 4096 + z * 64 + w) div 64 mod 64 = z"
    and "(x * 262144 + y * 4096 + z * 64 + w) mod 64 = w"
proof -
  have e: "x * 262144 + y * 4096 + z * 64 + w = (x * 64 + y) * 4096 + z * 64 + w" by simp
  have e1: "x * 262144 + y * 4096 + z * 64 + w = x * 262144 + (y * 4096 + z * 64 + w)" by simp
  have r: "y * 4096 + z * 64 + w < 262144" using assms by simp
  show "(x * 262144 + y * 4096 + z * 64 + w) div 262144 = x"
    unfolding e1 by (rule div_block [OF r])
  have "((x * 64 + y) * 4096 + z * 64 + w) div 4096 = x * 64 + y"
    by (rule div_mod_three(1) [OF assms(2,3)])
  then show "(x * 262144 + y * 4096 + z * 64 + w) div 4096 mod 64 = y"
    unfolding e using mod_block [OF assms(1), of x] by simp
  show "(x * 262144 + y * 4096 + z * 64 + w) div 64 mod 64 = z"
    unfolding e by (rule div_mod_three(2) [OF assms(2,3)])
  show "(x * 262144 + y * 4096 + z * 64 + w) mod 64 = w"
    unfolding e by (rule div_mod_three(3) [OF assms(2,3)])
qed


lemma encode_three_bytes:
  assumes "0xE0 \<le> b0" "b0 \<le> 0xEF" "0x80 \<le> b1" "b1 \<le> 0xBF" "0x80 \<le> b2" "b2 \<le> 0xBF"
    "b0 = 0xE0 \<longrightarrow> 0xA0 \<le> b1" "b0 = 0xED \<longrightarrow> b1 \<le> 0x9F"
  shows "utf8_encode ((b0 - 0xE0) * 4096 + (b1 - 0x80) * 64 + (b2 - 0x80)) = [b0, b1, b2]"
    and "scalar ((b0 - 0xE0) * 4096 + (b1 - 0x80) * 64 + (b2 - 0x80))"
    and "(b0 - 0xE0) * 4096 + (b1 - 0x80) * 64 + (b2 - 0x80) < 0x10000"
proof -
  define x y z where "x = b0 - 0xE0" and "y = b1 - 0x80" and "z = b2 - 0x80"
  have b: "b0 = 0xE0 + x" "b1 = 0x80 + y" "b2 = 0x80 + z"
    and r: "x \<le> 15" "y < 64" "z < 64"
    and c: "x = 0 \<longrightarrow> 32 \<le> y" "x = 13 \<longrightarrow> y < 32"
    using assms by (auto simp: x_def y_def z_def)
  let ?cp = "x * 4096 + y * 64 + z"
  note d = div_mod_three [OF r(2,3), of x]
  have lo: "0x800 \<le> ?cp" using r c by (cases "x = 0") auto
  have hi: "?cp < 0x10000" using r by linarith
  have ns: "\<not> (0xD800 \<le> ?cp \<and> ?cp \<le> 0xDFFF)"
  proof (cases "x = 13")
    case True
    then show ?thesis using c r by auto
  next
    case False
    then consider "x \<le> 12" | "14 \<le> x" by linarith
    then show ?thesis using r by cases auto
  qed
  have "utf8_encode ?cp = [b0, b1, b2]"
    using lo hi d b by (simp add: utf8_encode_def)
  then show "utf8_encode ((b0 - 0xE0) * 4096 + (b1 - 0x80) * 64 + (b2 - 0x80)) = [b0, b1, b2]"
    by (simp only: x_def y_def z_def)
  have "scalar ?cp" using hi ns by (simp add: scalar_def)
  then show "scalar ((b0 - 0xE0) * 4096 + (b1 - 0x80) * 64 + (b2 - 0x80))"
    by (simp only: x_def y_def z_def)
  show "(b0 - 0xE0) * 4096 + (b1 - 0x80) * 64 + (b2 - 0x80) < 0x10000"
    using hi by (simp only: x_def y_def z_def)
qed

lemma encode_four_bytes:
  assumes "0xF0 \<le> b0" "b0 \<le> 0xF4" "0x80 \<le> b1" "b1 \<le> 0xBF" "0x80 \<le> b2" "b2 \<le> 0xBF"
    "0x80 \<le> b3" "b3 \<le> 0xBF"
    "b0 = 0xF0 \<longrightarrow> 0x90 \<le> b1" "b0 = 0xF4 \<longrightarrow> b1 \<le> 0x8F"
  shows "utf8_encode ((b0 - 0xF0) * 262144 + (b1 - 0x80) * 4096 + (b2 - 0x80) * 64 + (b3 - 0x80))
           = [b0, b1, b2, b3]"
    and "scalar ((b0 - 0xF0) * 262144 + (b1 - 0x80) * 4096 + (b2 - 0x80) * 64 + (b3 - 0x80))"
    and "0x10000 \<le> (b0 - 0xF0) * 262144 + (b1 - 0x80) * 4096 + (b2 - 0x80) * 64 + (b3 - 0x80)"
proof -
  define x y z w where "x = b0 - 0xF0" and "y = b1 - 0x80" and "z = b2 - 0x80" and "w = b3 - 0x80"
  have b: "b0 = 0xF0 + x" "b1 = 0x80 + y" "b2 = 0x80 + z" "b3 = 0x80 + w"
    and r: "x \<le> 4" "y < 64" "z < 64" "w < 64"
    and c: "x = 0 \<longrightarrow> 16 \<le> y" "x = 4 \<longrightarrow> y < 16"
    using assms by (auto simp: x_def y_def z_def w_def)
  let ?cp = "x * 262144 + y * 4096 + z * 64 + w"
  note d = div_mod_four [OF r(2,3,4), of x]
  have lo: "0x10000 \<le> ?cp" using r c by (cases "x = 0") auto
  have hi: "?cp < 0x110000" using r c by (cases "x = 4") auto
  have "utf8_encode ?cp = [b0, b1, b2, b3]"
    using lo hi d b by (simp add: utf8_encode_def)
  then show "utf8_encode ((b0 - 0xF0) * 262144 + (b1 - 0x80) * 4096 + (b2 - 0x80) * 64 + (b3 - 0x80))
           = [b0, b1, b2, b3]"
    by (simp only: x_def y_def z_def w_def)
  have "scalar ?cp" using lo hi by (simp add: scalar_def)
  then show "scalar ((b0 - 0xF0) * 262144 + (b1 - 0x80) * 4096 + (b2 - 0x80) * 64 + (b3 - 0x80))"
    by (simp only: x_def y_def z_def w_def)
  show "0x10000 \<le> (b0 - 0xF0) * 262144 + (b1 - 0x80) * 4096 + (b2 - 0x80) * 64 + (b3 - 0x80)"
    using lo by (simp only: x_def y_def z_def w_def)
qed

lemma utf16_decode_pair:
  assumes "v < 0x100000"
  shows "utf16_decode ((0xD800 + v div 1024) # (0xDC00 + v mod 1024) # us) = (0x10000 + v) # utf16_decode us"
proof -
  have "v div 1024 < 1024" using assms by simp
  then have h: "is_high_surrogate (0xD800 + v div 1024)" by (simp add: is_high_surrogate_def)
  have "v mod 1024 < 1024" by simp
  then have l: "is_low_surrogate (0xDC00 + v mod 1024)" by (simp add: is_low_surrogate_def)
  have e: "v div 1024 * 1024 + v mod 1024 = v" by simp
  have "0x10000 + (0xD800 + v div 1024 - 0xD800) * 1024 + (0xDC00 + v mod 1024 - 0xDC00) = 0x10000 + v"
    using e by simp
  then show ?thesis using h l by (simp del: add_diff_cancel_left')
qed

lemma utf16_decode_encode:
  assumes "scalar cp"
  shows "utf16_decode (utf16_encode cp @ us) = cp # utf16_decode us"
proof (cases "cp < 0x10000")
  case True
  with assms have ns: "\<not> is_high_surrogate cp" "\<not> is_low_surrogate cp"
    by (auto simp: scalar_def is_high_surrogate_def is_low_surrogate_def)
  show ?thesis using True ns by (cases us) (simp_all add: utf16_encode_def)
next
  case False
  define v where "v = cp - 0x10000"
  have v: "v < 0x100000" "cp = 0x10000 + v" using assms False by (auto simp: scalar_def v_def)
  have "utf16_encode cp = [0xD800 + v div 1024, 0xDC00 + v mod 1024]"
    using False by (simp add: utf16_encode_def v_def)
  then show ?thesis using utf16_decode_pair [OF v(1), of us] v(2) by simp
qed

lemma utf16_to_utf8_encode:
  "scalar cp \<Longrightarrow> utf16_to_utf8 (utf16_encode cp @ us) = utf8_encode cp @ utf16_to_utf8 us"
  by (simp add: utf16_to_utf8_def utf16_decode_encode)

lemma utf8_to_utf16_ascii:
  "b0 < 0x80 \<Longrightarrow> utf8_to_utf16 (b0 # bs) = utf16_encode b0 @ utf8_to_utf16 bs"
  by (simp add: utf8_to_utf16_def)

lemma utf8_to_utf16_seq:
  "\<not> b0 < 0x80 \<Longrightarrow> utf8_seq b0 bs = Some (cp, n) \<Longrightarrow>
     utf8_to_utf16 (b0 # bs) = utf16_encode cp @ utf8_to_utf16 (drop n bs)"
  by (simp add: utf8_to_utf16_def)

lemma well_formed_cases:
  assumes "well_formed_utf8 (b0 # bs)"
  obtains (ascii) "b0 < 0x80" "well_formed_utf8 bs"
  | (multi) cp n where "\<not> b0 < 0x80" "utf8_seq b0 bs = Some (cp, n)" "n \<le> length bs"
      "well_formed_utf8 (drop n bs)" "utf8_encode cp = b0 # take n bs" "scalar cp"
proof (cases "b0 < 0x80")
  case True
  with assms have "well_formed_utf8 bs" by simp
  with True show ?thesis by (rule ascii)
next
  case nascii: False
  show ?thesis
  proof (cases "b0 \<le> 0xDF")
    case True
    with nascii assms obtain b1 r where bs: "bs = b1 # r"
      and r: "0xC2 \<le> b0" "0x80 \<le> b1" "b1 \<le> 0xBF" "well_formed_utf8 r"
      by (auto simp: in_range_def split: if_splits list.splits)
    have "utf8_seq b0 bs = Some ((b0 - 0xC0) * 64 + (b1 - 0x80), 1)"
      using True r bs by (simp add: utf8_seq_def is_cont_def)
    then show ?thesis
      using nascii bs r encode_two_bytes(1,2) [OF r(1) True r(2,3)] by (intro multi) auto
  next
    case n2: False
    show ?thesis
    proof (cases "b0 \<le> 0xEF")
      case True
      with nascii n2 assms obtain b1 b2 r where bs: "bs = b1 # b2 # r"
        and r: "0xE0 \<le> b0" "0x80 \<le> b1" "b1 \<le> 0xBF" "0x80 \<le> b2" "b2 \<le> 0xBF"
          "b0 = 0xE0 \<longrightarrow> 0xA0 \<le> b1" "b0 = 0xED \<longrightarrow> b1 \<le> 0x9F" "well_formed_utf8 r"
        by (auto simp: in_range_def split: if_splits list.splits)
      have "utf8_seq b0 bs = Some ((b0 - 0xE0) * 4096 + (b1 - 0x80) * 64 + (b2 - 0x80), 2)"
        using True r bs n2 by (auto simp add: utf8_seq_def is_cont_def)
      then show ?thesis
        using nascii bs r encode_three_bytes(1,2) [OF r(1) True r(2-7)] by (intro multi) auto
    next
      case n3: False
      with nascii n2 assms obtain b1 b2 b3 r where bs: "bs = b1 # b2 # b3 # r"
        and r: "0xF0 \<le> b0" "b0 \<le> 0xF4" "0x80 \<le> b1" "b1 \<le> 0xBF" "0x80 \<le> b2" "b2 \<le> 0xBF"
          "0x80 \<le> b3" "b3 \<le> 0xBF"
          "b0 = 0xF0 \<longrightarrow> 0x90 \<le> b1" "b0 = 0xF4 \<longrightarrow> b1 \<le> 0x8F" "well_formed_utf8 r"
        by (auto simp: in_range_def split: if_splits list.splits)
      have "utf8_seq b0 bs = Some ((b0 - 0xF0) * 262144 + (b1 - 0x80) * 4096 + (b2 - 0x80) * 64
                        + (b3 - 0x80), 3)"
        using r bs n2 n3 by (auto simp add: utf8_seq_def is_cont_def)
      then show ?thesis
        using nascii bs r encode_four_bytes(1,2) [OF r(1-10)] by (intro multi) auto
    qed
  qed
qed

lemma utf8_roundtrip:
  "well_formed_utf8 bs \<Longrightarrow> utf16_to_utf8 (utf8_to_utf16 bs) = bs"
proof (induction bs rule: length_induct)
  case (1 bs)
  show ?case
  proof (cases bs)
    case Nil
    then show ?thesis by (simp add: utf8_to_utf16_def utf16_to_utf8_def)
  next
    case (Cons b0 rest)
    with "1.prems" have wf: "well_formed_utf8 (b0 # rest)" by simp
    from wf show ?thesis
    proof (cases rule: well_formed_cases)
      case ascii
      have sc: "scalar b0" using ascii(1) by (simp add: scalar_def)
      have "utf16_to_utf8 (utf8_to_utf16 rest) = rest"
        using "1.IH" ascii(2) Cons by simp
      then show ?thesis
        using ascii(1) sc Cons
        by (simp add: utf8_to_utf16_ascii utf16_to_utf8_encode utf8_encode_def)
    next
      case (multi cp n)
      have "utf16_to_utf8 (utf8_to_utf16 (drop n rest)) = drop n rest"
        using "1.IH" multi(4) Cons by simp
      then show ?thesis
        using multi Cons
        by (simp add: utf8_to_utf16_seq utf16_to_utf8_encode)
    qed
  qed
qed


lemma utf8_seq_SomeD:
  assumes "utf8_seq b0 bs = Some (cp, n)"
  shows "scalar cp" and "1 \<le> n" and "n \<le> length bs" and "cp < 0x10000 \<or> n = 3"
proof -
  have "scalar cp \<and> 1 \<le> n \<and> n \<le> length bs \<and> (cp < 0x10000 \<or> n = 3)"
  proof (cases "0xC2 \<le> b0 \<and> b0 \<le> 0xDF")
    case True
    with assms obtain b1 r where bs: "bs = b1 # r" and r: "0x80 \<le> b1" "b1 \<le> 0xBF"
      and cp: "cp = (b0 - 0xC0) * 64 + (b1 - 0x80)" "n = 1"
      by (auto simp: utf8_seq_def is_cont_def split: list.splits if_splits)
    from True have t: "0xC2 \<le> b0" "b0 \<le> 0xDF" by simp_all
    show ?thesis using encode_two_bytes(2,3) [OF t r] cp bs by simp
  next
    case n2: False
    show ?thesis
    proof (cases "0xE0 \<le> b0 \<and> b0 \<le> 0xEF")
      case True
      with n2 assms obtain b1 b2 r where bs: "bs = b1 # b2 # r"
        and r: "0x80 \<le> b1" "b1 \<le> 0xBF" "0x80 \<le> b2" "b2 \<le> 0xBF"
          "b0 = 0xE0 \<longrightarrow> 0xA0 \<le> b1" "b0 = 0xED \<longrightarrow> b1 \<le> 0x9F"
        and cp: "cp = (b0 - 0xE0) * 4096 + (b1 - 0x80) * 64 + (b2 - 0x80)" "n = 2"
        by (auto simp: utf8_seq_def is_cont_def split: list.splits if_splits)
      from True have t: "0xE0 \<le> b0" "b0 \<le> 0xEF" by simp_all
      show ?thesis using encode_three_bytes(2,3) [OF t r] cp bs by simp
    next
      case n3: False
      with n2 assms obtain b1 b2 b3 r where bs: "bs = b1 # b2 # b3 # r"
        and r: "0xF0 \<le> b0" "b0 \<le> 0xF4" "0x80 \<le> b1" "b1 \<le> 0xBF" "0x80 \<le> b2" "b2 \<le> 0xBF"
          "0x80 \<le> b3" "b3 \<le> 0xBF"
          "b0 = 0xF0 \<longrightarrow> 0x90 \<le> b1" "b0 = 0xF4 \<longrightarrow> b1 \<le> 0x8F"
        and cp: "cp = (b0 - 0xF0) * 262144 + (b1 - 0x80) * 4096 + (b2 - 0x80) * 64 + (b3 - 0x80)"
          "n = 3"
        by (auto simp: utf8_seq_def is_cont_def split: list.splits if_splits)
      show ?thesis using encode_four_bytes(2) [OF r] cp bs by simp
    qed
  qed
  then show "scalar cp" and "1 \<le> n" and "n \<le> length bs" and "cp < 0x10000 \<or> n = 3"
    by simp_all
qed

lemma length_utf16_encode: "length (utf16_encode cp) = (if cp < 0x10000 then 1 else 2)"
  by (simp add: utf16_encode_def)

lemma utf16_encode_units: "cp < 0x110000 \<Longrightarrow> \<forall>u \<in> set (utf16_encode cp). u < 65536"
proof -
  assume a: "cp < 0x110000"
  have "(cp - 0x10000) div 1024 < 1024" using a by simp
  moreover have "(cp - 0x10000) mod 1024 < 1024" by simp
  ultimately show ?thesis by (auto simp: utf16_encode_def)
qed

lemma length_utf8_to_utf16: "length (utf8_to_utf16 bs) \<le> length bs"
proof (induction bs rule: utf8_decode.induct)
  case 1
  then show ?case by (simp add: utf8_to_utf16_def)
next
  case (2 b0 bs)
  show ?case
  proof (cases "b0 < 0x80")
    case True
    then show ?thesis using 2(1) [OF True] by (simp add: utf8_to_utf16_def length_utf16_encode)
  next
    case False
    show ?thesis
    proof (cases "utf8_seq b0 bs")
      case None
      then show ?thesis using False 2(2) [OF False None] by (simp add: utf8_to_utf16_def length_utf16_encode)
    next
      case (Some a)
      then obtain cp n where s: "utf8_seq b0 bs = Some (cp, n)" by (cases a) auto
      note d = utf8_seq_SomeD [OF s]
      have "length (utf8_to_utf16 (drop n bs)) \<le> length bs - n"
        using 2(3) [OF False s refl] by simp
      moreover have "length (utf16_encode cp) \<le> n + 1"
        using d(2,4) by (auto simp: length_utf16_encode)
      ultimately show ?thesis using False s d(3) by (simp add: utf8_to_utf16_def)
    qed
  qed
qed

lemma utf8_to_utf16_none:
  "\<not> b0 < 0x80 \<Longrightarrow> utf8_seq b0 bs = None \<Longrightarrow>
     utf8_to_utf16 (b0 # bs) = utf16_encode 0xFFFD @ utf8_to_utf16 bs"
  by (simp add: utf8_to_utf16_def)

lemma utf8_to_utf16_units: "\<forall>u \<in> set (utf8_to_utf16 bs). u < 65536"
proof (induction bs rule: utf8_decode.induct)
  case 1
  then show ?case by (simp add: utf8_to_utf16_def)
next
  case (2 b0 bs)
  show ?case
  proof (cases "b0 < 0x80")
    case True
    then have "\<forall>u \<in> set (utf16_encode b0). u < 65536" by (intro utf16_encode_units) simp
    then show ?thesis using 2(1) [OF True] by (simp only: utf8_to_utf16_ascii [OF True] set_append ball_Un simp_thms)
  next
    case False
    show ?thesis
    proof (cases "utf8_seq b0 bs")
      case None
      have "\<forall>u \<in> set (utf16_encode 0xFFFD). u < 65536" by (intro utf16_encode_units) simp
      then show ?thesis using 2(2) [OF False None]
        by (simp only: utf8_to_utf16_none [OF False None] set_append ball_Un simp_thms)
    next
      case (Some a)
      then obtain cp n where s: "utf8_seq b0 bs = Some (cp, n)" by (cases a) auto
      have "cp < 0x110000" using utf8_seq_SomeD(1) [OF s] by (simp add: scalar_def)
      then have "\<forall>u \<in> set (utf16_encode cp). u < 65536" by (rule utf16_encode_units)
      moreover have "\<forall>u \<in> set (utf8_to_utf16 (drop n bs)). u < 65536"
        using 2(3) [OF False s refl] .
      ultimately show ?thesis
        by (simp only: utf8_to_utf16_seq [OF False s] set_append ball_Un simp_thms)
    qed
  qed
qed

section \<open>The conversion helpers on strings that fit an int\<close>

lemma int_cast_small: "n < 2 ^ 31 \<Longrightarrow> int_cast n = int n"
  unfolding int_cast_def by (rule signed_take_bit_int_eq_self) auto

lemma int_cast_wrap: "int_cast (2 ^ 32) = 0"
  by (simp add: int_cast_def signed_take_bit_eq_take_bit_shift take_bit_eq_mod)

lemma MultiByteToWideChar_size:
  assumes "0 < cb"
  shows "MultiByteToWideChar s cb buf 0 h =
    ((int (length (utf8_to_utf16 (map of_char (take (nat cb) s)))), buf),
     invoke Call_MultiByteToWideChar h)"
  using assms by (simp add: MultiByteToWideChar_def Let_def)

lemma MultiByteToWideChar_fill:
  assumes "0 < cb" and "out = map of_nat (utf8_to_utf16 (map of_char (take (nat cb) s)))"
    and "length buf = length out"
  shows "MultiByteToWideChar s cb buf (int (length out)) h =
    ((int (length out), out), invoke Call_MultiByteToWideChar h)"
proof (cases "out = []")
  case True
  then show ?thesis using assms by (simp add: MultiByteToWideChar_def Let_def)
next
  case False
  then have "0 < length out" by simp
  then show ?thesis using assms by (simp add: MultiByteToWideChar_def Let_def)
qed

lemma string_to_wstring_eq:
  assumes "str \<noteq> []" and "length str < 2 ^ 31"
  shows "string_to_wstring str h =
    (map of_nat (utf8_to_utf16 (map of_char str)),
     invoke Call_MultiByteToWideChar (invoke Call_MultiByteToWideChar h))"
proof -
  let ?out = "map of_nat (utf8_to_utf16 (map of_char str)) :: wstring"
  have cb: "int_cast (length str) = int (length str)" "0 < int (length str)"
    using assms by (simp_all add: int_cast_small)
  have t: "take (nat (int (length str))) str = str" by simp
  have 1: "MultiByteToWideChar str (int (length str)) [] 0 h =
      ((int (length ?out), []), invoke Call_MultiByteToWideChar h)"
    using MultiByteToWideChar_size [OF cb(2), of str "[]" h] by (simp only: t length_map)
  have 2: "MultiByteToWideChar str (int (length str)) (replicate (length ?out) 0)
        (int (length ?out)) (invoke Call_MultiByteToWideChar h) =
      ((int (length ?out), ?out),
       invoke Call_MultiByteToWideChar (invoke Call_MultiByteToWideChar h))"
    by (rule MultiByteToWideChar_fill [OF cb(2)]) (simp_all only: t length_replicate)
  show ?thesis
    using assms(1) by (simp add: string_to_wstring_def cb(1) 1 2 del: length_map)
qed

lemma WideCharToMultiByte_size:
  assumes "0 < cch"
  shows "WideCharToMultiByte w cch buf 0 h =
    ((int (length (utf16_to_utf8 (map unat (take (nat cch) w)))), buf),
     invoke Call_WideCharToMultiByte h)"
  using assms by (simp add: WideCharToMultiByte_def Let_def)

lemma WideCharToMultiByte_fill:
  assumes "0 < cch" and "out = map char_of (utf16_to_utf8 (map unat (take (nat cch) w)))"
    and "length buf = length out"
  shows "WideCharToMultiByte w cch buf (int (length out)) h =
    ((int (length out), out), invoke Call_WideCharToMultiByte h)"
proof (cases "out = []")
  case True
  then show ?thesis using assms by (simp add: WideCharToMultiByte_def Let_def)
next
  case False
  then have "0 < length out" by simp
  then show ?thesis using assms by (simp add: WideCharToMultiByte_def Let_def)
qed

lemma wstring_to_string_eq:
  assumes "wstr \<noteq> []" and "length wstr < 2 ^ 31"
  shows "wstring_to_string wstr h =
    (map char_of (utf16_to_utf8 (map unat wstr)),
     invoke Call_WideCharToMultiByte (invoke Call_WideCharToMultiByte h))"
proof -
  let ?out = "map char_of (utf16_to_utf8 (map unat wstr)) :: string"
  have cb: "int_cast (length wstr) = int (length wstr)" "0 < int (length wstr)"
    using assms by (simp_all add: int_cast_small)
  have t: "take (nat (int (length wstr))) wstr = wstr" by simp
  have 1: "WideCharToMultiByte wstr (int (length wstr)) [] 0 h =
      ((int (length ?out), []), invoke Call_WideCharToMultiByte h)"
    using WideCharToMultiByte_size [OF cb(2), of wstr "[]" h] by (simp only: t length_map)
  have 2: "WideCharToMultiByte wstr (int (length wstr)) (replicate (length ?out) (CHR 0x00))
        (int (length ?out)) (invoke Call_WideCharToMultiByte h) =
      ((int (length ?out), ?out),
       invoke Call_WideCharToMultiByte (invoke Call_WideCharToMultiByte h))"
    by (rule WideCharToMultiByte_fill [OF cb(2)]) (simp_all only: t length_replicate)
  show ?thesis
    using assms(1) by (simp add: wstring_to_string_def cb(1) 1 2 del: length_map)
qed

lemma unat_of_nat_unit: "u < 65536 \<Longrightarrow> unat (of_nat u :: 16 word) = u"
  by (simp add: unat_of_nat)

lemma map_unat_of_nat_units:
  "\<forall>u \<in> set us. u < 65536 \<Longrightarrow> map unat (map of_nat us :: wstring) = us"
  by (induction us) (simp_all add: unat_of_nat_unit)

lemma well_formed_ascii: "\<forall>b \<in> set bs. b < 0x80 \<Longrightarrow> well_formed_utf8 bs"
  by (induction bs) simp_all

lemma MultiByteToWideChar_zero:
  "MultiByteToWideChar s 0 buf cch h = ((0, buf), invoke Call_MultiByteToWideChar h)"
  by (simp add: MultiByteToWideChar_def Let_def)

lemma wstring_to_string_Nil: "wstring_to_string [] h = ([], h)"
  by (simp add: wstring_to_string_def)


section \<open>Decimal digits and ASCII\<close>

lemma utf16_to_utf8_Cons_scalar:
  assumes "scalar u" and "u < 0x10000"
  shows "utf16_to_utf8 (u # us) = utf8_encode u @ utf16_to_utf8 us"
  using utf16_to_utf8_encode [OF assms(1), of us] assms(2) by (simp add: utf16_encode_def)

lemma utf16_to_utf8_ascii: "\<forall>u \<in> set us. u < 0x80 \<Longrightarrow> utf16_to_utf8 us = us"
proof (induction us)
  case Nil
  then show ?case by (simp add: utf16_to_utf8_def)
next
  case (Cons u us)
  then have u: "u < 0x80" and r: "utf16_to_utf8 us = us" by simp_all
  have "scalar u" "u < 0x10000" using u by (simp_all add: scalar_def)
  then show ?case using u r by (simp add: utf16_to_utf8_Cons_scalar utf8_encode_def)
qed

lemma dec_digits_less: "\<forall>d \<in> set (dec_digits n). d < 10"
proof (induction n rule: dec_digits.induct)
  case (1 n)
  show ?case
  proof (cases "n < 10")
    case True
    then show ?thesis by (subst dec_digits.simps) simp
  next
    case False
    then show ?thesis using 1 by (subst dec_digits.simps) simp
  qed
qed

lemma dec_digits_nonempty: "dec_digits n \<noteq> []"
  by (subst dec_digits.simps) simp

lemma length_dec_digits: "n < 10 ^ k \<Longrightarrow> 0 < k \<Longrightarrow> length (dec_digits n) \<le> k"
proof (induction n arbitrary: k rule: dec_digits.induct)
  case (1 n)
  show ?case
  proof (cases "n < 10")
    case True
    then show ?thesis using "1.prems" by (subst dec_digits.simps) simp
  next
    case False
    with "1.prems" obtain j where k: "k = Suc j" by (cases k) auto
    have "0 < j" using False "1.prems"(1) k by (cases j) auto
    moreover have "n div 10 < 10 ^ j" using "1.prems"(1) k by (simp add: less_mult_imp_div_less)
    ultimately have "length (dec_digits (n div 10)) \<le> j" using "1.IH" [OF False] by simp
    then show ?thesis using False k by (subst dec_digits.simps) simp
  qed
qed

lemma dec_digits_value: "foldl (\<lambda>a d. 10 * a + d) 0 (dec_digits n) = n"
proof (induction n rule: dec_digits.induct)
  case (1 n)
  show ?case
  proof (cases "n < 10")
    case True
    then show ?thesis by (subst dec_digits.simps) simp
  next
    case False
    then show ?thesis using 1 by (subst dec_digits.simps) simp
  qed
qed

lemma dec_digits_no_leading_zero: "0 < n \<Longrightarrow> hd (dec_digits n) \<noteq> 0"
proof (induction n rule: dec_digits.induct)
  case (1 n)
  show ?case
  proof (cases "n < 10")
    case True
    then show ?thesis using "1.prems" by (subst dec_digits.simps) simp
  next
    case False
    then have "0 < n div 10" by simp
    then have "hd (dec_digits (n div 10)) \<noteq> 0" using "1.IH" [OF False] by simp
    then show ?thesis using False dec_digits_nonempty [of "n div 10"]
      by (subst dec_digits.simps) simp
  qed
qed

lemma length_dec_digits_dword: "length (dec_digits (unat (v :: DWORD))) \<le> 10"
proof -
  have "unat v < 2 ^ 32" using unsigned_less [of v] by simp
  then have "unat v < 10 ^ 10" by simp
  then show ?thesis by (rule length_dec_digits) simp
qed

lemma unat_of_char: "unat (of_char c :: 16 word) = of_char c"
proof -
  have "(of_char c :: 16 word) = of_nat (of_char c)" by (simp only: of_nat_of_char)
  moreover have "(of_char c :: nat) < 65536"
    by (rule less_trans [OF nat_of_char_less_256]) simp
  ultimately show ?thesis by (simp only: unat_of_nat_unit)
qed

lemma map_unat_wide_literal: "map unat (wide_literal s) = map of_char s"
  by (simp add: wide_literal_def unat_of_char)

lemma unat_digit: "d < 10 \<Longrightarrow> unat (48 + of_nat d :: 16 word) = 48 + d"
  using unat_of_nat_unit [of "48 + d"] by simp

lemma map_of_char_decimal: "map of_char (decimal n) = map (\<lambda>d. 48 + d) (dec_digits n)"
  using dec_digits_less [of n] by (auto simp: decimal_def)

lemma group_digits_none:
  "no_digit_grouping np \<Longrightarrow> group_digits (grouping np) sep rds = rds"
  by (subst group_digits.simps) (auto simp: no_digit_grouping_def split: list.splits)

lemma map_unat_num_put_ulong:
  assumes "no_digit_grouping np"
  shows "map unat (num_put_ulong np v) = map of_char (decimal (unat v))"
  using dec_digits_less [of "unat v"]
  by (simp add: num_put_ulong_def group_digits_none [OF assms] map_of_char_decimal unat_digit)

lemma map_unat_version_wstring:
  assumes "no_digit_grouping np"
  shows "map unat (version_wstring np v) = map of_char (version_string v)"
  by (simp add: version_wstring_def stream_str_def put_ulong_def put_wstring_def
      map_unat_wide_literal map_unat_num_put_ulong [OF assms] version_string_def)

lemma version_wstring_nonempty: "version_wstring np v \<noteq> []"
  by (simp add: version_wstring_def stream_str_def put_ulong_def put_wstring_def wide_literal_def)

lemma invoke_simps:
  "version_status (invoke c h) = version_status h"
  "version_info (invoke c h) = version_info h"
  "global_numpunct (invoke c h) = global_numpunct h"
  "os_calls (invoke c h) = os_calls h @ [c]"
  by (simp_all add: invoke_def)

lemma wstring_to_string_host:
  "w \<noteq> [] \<Longrightarrow>
     snd (wstring_to_string w h) =
       invoke Call_WideCharToMultiByte (invoke Call_WideCharToMultiByte h)"
  by (simp add: wstring_to_string_def WideCharToMultiByte_def Let_def split_def)

lemma wstring_to_string_log_indep:
  "fst (wstring_to_string w (h\<lparr>os_calls := l\<rparr>)) = fst (wstring_to_string w h)"
  by (simp add: wstring_to_string_def WideCharToMultiByte_def Let_def split_def)

lemma HandleMethodCall_version_run:
  assumes "method_name method_call = ''getPlatformVersion''" and "version_status h = 0"
  shows "HandleMethodCall this method_call h =
    ([Success (EncodableString
        (fst (wstring_to_string (version_wstring (global_numpunct h) (version_info h)) h)))],
     invoke Call_WideCharToMultiByte (invoke Call_WideCharToMultiByte
       (invoke Call_RtlGetVersion h)))"
proof -
  let ?w = "version_wstring (global_numpunct h) (version_info h)"
  let ?h1 = "invoke Call_RtlGetVersion h"
  have "HandleMethodCall this method_call h =
      ([Success (EncodableString (fst (wstring_to_string ?w ?h1)))],
       snd (wstring_to_string ?w ?h1))"
    using assms
    by (simp add: HandleMethodCall_def RtlGetVersion_def version_wstring_def
        wstringstream_ctor_def invoke_simps split_def Let_def)
  moreover have "fst (wstring_to_string ?w ?h1) = fst (wstring_to_string ?w h)"
    by (simp only: invoke_def wstring_to_string_log_indep)
  ultimately show ?thesis
    by (simp only: wstring_to_string_host [OF version_wstring_nonempty])
qed

lemma decimal_ascii: "\<forall>c \<in> set (decimal n). (of_char c :: nat) < 0x80"
  using dec_digits_less [of n] by (auto simp: decimal_def)

lemma length_decimal_dword: "length (decimal (unat (v :: DWORD))) \<le> 10"
  using length_dec_digits_dword [of v] by (simp add: decimal_def)

lemma wstring_to_string_ascii:
  assumes "map unat ws = map of_char s" and "s \<noteq> []" and "length s < 2 ^ 31"
    and "\<forall>c \<in> set s. (of_char c :: nat) < 0x80"
  shows "wstring_to_string ws h =
    (s, invoke Call_WideCharToMultiByte (invoke Call_WideCharToMultiByte h))"
proof -
  have l: "length ws = length s" using assms(1) by (metis length_map)
  then have ne: "ws \<noteq> []" and len: "length ws < 2 ^ 31" using assms(2,3) by auto
  have "utf16_to_utf8 (map of_char s) = map of_char s"
    by (rule utf16_to_utf8_ascii) (use assms(4) in auto)
  then have "map char_of (utf16_to_utf8 (map unat ws)) = s"
    by (simp add: assms(1) comp_def)
  then show ?thesis by (simp only: wstring_to_string_eq [OF ne len])
qed

lemma HandleMethodCall_version_ok:
  assumes "method_name method_call = ''getPlatformVersion''" and "version_status h = 0"
    and "no_digit_grouping (global_numpunct h)"
  shows "HandleMethodCall this method_call h =
    ([Success (EncodableString (version_string (version_info h)))],
     invoke Call_WideCharToMultiByte (invoke Call_WideCharToMultiByte
       (invoke Call_RtlGetVersion h)))"
proof -
  let ?v = "version_info h"
  have u: "map unat (version_wstring (global_numpunct h) ?v) = map of_char (version_string ?v)"
    by (rule map_unat_version_wstring [OF assms(3)])
  have ne: "version_string ?v \<noteq> []" by (simp add: version_string_def)
  have len: "length (version_string ?v) < 2 ^ 31"
    using length_decimal_dword [of "dwMajorVersion ?v"] length_decimal_dword [of "dwMinorVersion ?v"]
      length_decimal_dword [of "dwBuildNumber ?v"]
    by (simp add: version_string_def)
  have asc: "\<forall>c \<in> set (version_string ?v). (of_char c :: nat) < 0x80"
    using decimal_ascii by (auto simp: version_string_def)
  note w = wstring_to_string_ascii [OF u ne len asc]
  show ?thesis
    by (simp add: HandleMethodCall_version_run [OF assms(1,2)] w)
qed

section \<open>The dispatcher, branch by branch\<close>

lemma HandleMethodCall_version_failed:
  assumes "method_name method_call = ''getPlatformVersion''" and "version_status h \<noteq> 0"
  shows "HandleMethodCall this method_call h =
    ([Error ''VERSION_ERROR'' ''Failed to get Windows version.'' None],
     invoke Call_RtlGetVersion h)"
  using assms by (simp add: HandleMethodCall_def RtlGetVersion_def)

lemma HandleMethodCall_other:
  assumes "method_name method_call \<noteq> ''getPlatformVersion''"
  shows "HandleMethodCall this method_call h = ([NotImplemented], h)"
  using assms by (simp add: HandleMethodCall_def)

lemma HandleMethodCall_host:
  "snd (HandleMethodCall this c h) = h\<lparr>os_calls := os_calls h @ dispatch_log c h\<rparr>"
proof (cases "method_name c = ''getPlatformVersion''")
  case True
  show ?thesis
  proof (cases "version_status h = 0")
    case z: True
    show ?thesis
      by (simp add: HandleMethodCall_version_run [OF True z] dispatch_log_def True z invoke_def)
  next
    case nz: False
    show ?thesis
      by (simp add: HandleMethodCall_version_failed [OF True nz] dispatch_log_def True nz invoke_def)
  qed
next
  case False
  then show ?thesis by (simp add: HandleMethodCall_other dispatch_log_def)
qed

lemma HandleMethodCall_replies:
  "fst (HandleMethodCall this c h) =
     (if method_name c = ''getPlatformVersion'' then
        if version_status h = 0
        then [Success (EncodableString
                (fst (wstring_to_string
                        (version_wstring (global_numpunct h) (version_info h)) h)))]
        else [Error ''VERSION_ERROR'' ''Failed to get Windows version.'' None]
      else [NotImplemented])"
  by (simp add: HandleMethodCall_version_run HandleMethodCall_version_failed HandleMethodCall_other)

lemma dispatch_log_apartment:
  "Call_init_apartment \<notin> set (dispatch_log c h)" "Call_uninit_apartment \<notin> set (dispatch_log c h)"
  by (simp_all add: dispatch_log_def)

lemma dispatch_log_indep: "dispatch_log c (h\<lparr>os_calls := l\<rparr>) = dispatch_log c h"
  by (simp add: dispatch_log_def)

lemma dispatch_all_log_indep: "dispatch_all_log cs (h\<lparr>os_calls := l\<rparr>) = dispatch_all_log cs h"
  by (induction cs) (simp_all add: dispatch_log_indep)

lemma dispatch_all_host:
  "snd (dispatch_all this cs h) = h\<lparr>os_calls := os_calls h @ dispatch_all_log cs h\<rparr>"
proof (induction cs arbitrary: h)
  case Nil
  then show ?case by simp
next
  case (Cons c cs)
  obtain r h1 where 1: "HandleMethodCall this c h = (r, h1)" by (cases "HandleMethodCall this c h")
  then have h1: "h1 = h\<lparr>os_calls := os_calls h @ dispatch_log c h\<rparr>"
    using HandleMethodCall_host [of this c h] by simp
  obtain rs h2 where 2: "dispatch_all this cs h1 = (rs, h2)" by (cases "dispatch_all this cs h1")
  then have "h2 = h1\<lparr>os_calls := os_calls h1 @ dispatch_all_log cs h1\<rparr>"
    using Cons.IH [of h1] by simp
  then have "h2 = h\<lparr>os_calls := os_calls h @ dispatch_log c h @ dispatch_all_log cs h\<rparr>"
    by (simp add: h1 dispatch_all_log_indep)
  then show ?case by (simp add: 1 2)
qed

lemma dispatch_all_log_apartment:
  "Call_init_apartment \<notin> set (dispatch_all_log cs h)"
  "Call_uninit_apartment \<notin> set (dispatch_all_log cs h)"
  by (induction cs) (simp_all add: dispatch_log_apartment)

lemma dispatch_all_replies:
  "fst (dispatch_all this cs h) = map (\<lambda>c. fst (HandleMethodCall this c h)) cs"
proof (induction cs arbitrary: h)
  case Nil
  then show ?case by simp
next
  case (Cons c cs)
  obtain r h1 where 1: "HandleMethodCall this c h = (r, h1)" by (cases "HandleMethodCall this c h")
  then have h1: "h1 = h\<lparr>os_calls := os_calls h @ dispatch_log c h\<rparr>"
    using HandleMethodCall_host [of this c h] by simp
  obtain rs h2 where 2: "dispatch_all this cs h1 = (rs, h2)" by (cases "dispatch_all this cs h1")
  have "rs = map (\<lambda>c. fst (HandleMethodCall this c h1)) cs" using Cons.IH [of h1] 2 by simp
  also have "\<dots> = map (\<lambda>c. fst (HandleMethodCall this c h)) cs"
    by (simp add: HandleMethodCall_replies h1 wstring_to_string_log_indep)
  finally show ?case using 1 2 by simp
qed

lemma is_int_decimal: "is_int (decimal n)"
proof -
  have "\<forall>c \<in> set (decimal n). is_digit c"
    using dec_digits_less [of n] by (auto simp: decimal_def is_digit_def)
  then show ?thesis by (simp add: is_int_def decimal_def dec_digits_nonempty list_all_iff)
qed

lemma version_pattern_version_string: "version_pattern (version_string v)"
proof -
  have w: "is_word ''Windows''" by (simp add: is_word_def is_letter_def)
  have "version_string v = ''Windows'' @ '' '' @ decimal (unat (dwMajorVersion v)) @ ''.''
       @ decimal (unat (dwMinorVersion v)) @ '' Build '' @ decimal (unat (dwBuildNumber v))"
    by (simp add: version_string_def)
  then show ?thesis unfolding version_pattern_def using w is_int_decimal by blast
qed

lemma decimal_example: "decimal 10 = ''10''" "decimal 0 = ''0''" "decimal 19045 = ''19045''"
  by (simp_all add: decimal_def dec_digits.simps char_of_def bit_Suc_0_iff)

lemma version_pattern_chars:
  assumes "version_pattern s"
  shows "\<forall>c \<in> set s. is_letter c \<or> is_digit c \<or> c = CHR '' '' \<or> c = CHR ''.''"
proof -
  from assms obtain w a b c where s: "s = w @ '' '' @ a @ ''.'' @ b @ '' Build '' @ c"
    and w: "list_all is_letter w" and d: "list_all is_digit a" "list_all is_digit b"
      "list_all is_digit c"
    by (auto simp: version_pattern_def is_word_def is_int_def)
  have "\<forall>x \<in> set '' Build ''. is_letter x \<or> x = CHR '' ''" by (simp add: is_letter_def)
  then show ?thesis using w d unfolding s by (auto simp: list_all_iff)
qed

lemma grouping_host_wstring:
  "map unat (version_wstring (global_numpunct grouping_host) (version_info grouping_host)) =
     map of_char ''Windows 10.0 Build 19,045''"
  by (simp add: grouping_host_def example_host_def version_wstring_def stream_str_def
      put_ulong_def put_wstring_def wide_literal_def num_put_ulong_def dec_digits.simps
      group_digits.simps group_size_def)

lemma grouping_host_version:
  "fst (wstring_to_string
          (version_wstring (global_numpunct grouping_host) (version_info grouping_host))
          grouping_host) = ''Windows 10.0 Build 19,045''"
  by (simp add: wstring_to_string_ascii [OF grouping_host_wstring])

section \<open>The claims\<close>

text \<open>
  C1. A call named \<open>getPlatformVersion\<close>, on a host whose version query returns
  status 0 and whose process-global C++ locale inserts no digit grouping (as the classic
  locale), is answered with exactly one \<open>Success\<close> that carries the string
  \<open>Windows <major>.<minor> Build <build>\<close>, the three numbers being the decimal numerals
  of the fields of the version record; the string has the shape
  \<open><word> <int>.<int> Build <int>\<close>. Without the condition on the locale the statement
  fails: the stream is default-constructed, so it formats the numbers with the global
  locale, and under a locale that groups by three with a comma build 19045 is written
  \<open>19,045\<close>.
\<close>

theorem getPlatformVersion_success_ungrouped:
  assumes "method_name method_call = ''getPlatformVersion''" and "version_status h = 0"
    and "no_digit_grouping (global_numpunct h)"
  shows "fst (HandleMethodCall this method_call h) =
           [Success (EncodableString
              (''Windows '' @ decimal (unat (dwMajorVersion (version_info h))) @ ''.''
                 @ decimal (unat (dwMinorVersion (version_info h))) @ '' Build ''
                 @ decimal (unat (dwBuildNumber (version_info h)))))]
         \<and> version_pattern
              (''Windows '' @ decimal (unat (dwMajorVersion (version_info h))) @ ''.''
                 @ decimal (unat (dwMinorVersion (version_info h))) @ '' Build ''
                 @ decimal (unat (dwBuildNumber (version_info h))))"
  using HandleMethodCall_version_ok [OF assms, of this]
    version_pattern_version_string [of "version_info h"]
  by (simp add: version_string_def)

theorem getPlatformVersion_success_ungrouped_witness:
  "method_name example_call = ''getPlatformVersion'' \<and> version_status example_host = 0
   \<and> no_digit_grouping (global_numpunct example_host)
   \<and> fst (HandleMethodCall example_plugin example_call example_host) =
       [Success (EncodableString ''Windows 10.0 Build 19045'')]"
proof -
  have n: "method_name example_call = ''getPlatformVersion''" by (simp add: example_call_def)
  have z: "version_status example_host = 0" by (simp add: example_host_def)
  have g: "no_digit_grouping (global_numpunct example_host)"
    by (simp add: example_host_def classic_numpunct_def no_digit_grouping_def)
  show ?thesis
    using n z g getPlatformVersion_success_ungrouped [OF n z g, of example_plugin]
    by (simp add: example_host_def decimal_example)
qed

theorem getPlatformVersion_grouping_counterexample:
  "method_name example_call = ''getPlatformVersion'' \<and> version_status grouping_host = 0
   \<and> fst (HandleMethodCall example_plugin example_call grouping_host) =
       [Success (EncodableString ''Windows 10.0 Build 19,045'')]
   \<and> fst (HandleMethodCall example_plugin example_call grouping_host) \<noteq>
       [Success (EncodableString
          (''Windows '' @ decimal (unat (dwMajorVersion (version_info grouping_host))) @ ''.''
             @ decimal (unat (dwMinorVersion (version_info grouping_host))) @ '' Build ''
             @ decimal (unat (dwBuildNumber (version_info grouping_host)))))]
   \<and> \<not> version_pattern ''Windows 10.0 Build 19,045''"
proof -
  have n: "method_name example_call = ''getPlatformVersion''" by (simp add: example_call_def)
  have z: "version_status grouping_host = 0" by (simp add: grouping_host_def example_host_def)
  have r: "fst (HandleMethodCall example_plugin example_call grouping_host) =
      [Success (EncodableString ''Windows 10.0 Build 19,045'')]"
    by (simp add: HandleMethodCall_version_run [OF n z] grouping_host_version)
  have p: "\<not> version_pattern ''Windows 10.0 Build 19,045''"
    using version_pattern_chars [of "''Windows 10.0 Build 19,045''"]
    by (auto simp: is_letter_def is_digit_def)
  show ?thesis
    using n z r p by (simp add: grouping_host_def example_host_def decimal_example)
qed

text \<open>
  C2. A call named \<open>getPlatformVersion\<close>, on a host whose version query returns a
  status other than 0, is answered with the error of code \<open>VERSION_ERROR\<close> and message
  \<open>Failed to get Windows version.\<close>, and with no \<open>Success\<close>.
\<close>

theorem getPlatformVersion_failure:
  assumes "method_name method_call = ''getPlatformVersion''" and "version_status h \<noteq> 0"
  shows "fst (HandleMethodCall this method_call h) =
           [Error ''VERSION_ERROR'' ''Failed to get Windows version.'' None]
         \<and> (\<forall>v. Success v \<notin> set (fst (HandleMethodCall this method_call h)))"
  using HandleMethodCall_version_failed [OF assms, of this] by simp

theorem getPlatformVersion_failure_witness:
  "method_name example_call = ''getPlatformVersion''
   \<and> version_status (example_host\<lparr>version_status := 0xC0000001\<rparr>) \<noteq> 0
   \<and> fst (HandleMethodCall example_plugin example_call
            (example_host\<lparr>version_status := 0xC0000001\<rparr>)) =
       [Error ''VERSION_ERROR'' ''Failed to get Windows version.'' None]"
proof -
  have n: "method_name example_call = ''getPlatformVersion''" by (simp add: example_call_def)
  have z: "version_status (example_host\<lparr>version_status := 0xC0000001\<rparr>) \<noteq> 0" by simp
  show ?thesis
    using n z getPlatformVersion_failure [OF n z, of example_plugin] by simp
qed

text \<open>
  C3. A call of any other name (the empty name, a name that differs in case, a name
  under the prefix \<open>ble#\<close>) is answered with \<open>NotImplemented\<close>, whatever its arguments,
  and leaves the host as it was.
\<close>

theorem other_method_not_implemented:
  assumes "method_name method_call \<noteq> ''getPlatformVersion''"
  shows "HandleMethodCall this method_call h = ([NotImplemented], h)"
  using assms by (simp add: HandleMethodCall_def)

theorem other_method_not_implemented_witness:
  "method_name \<lparr>method_name = ''ble#scan'', arguments = EncodableList [EncodableInt32 7]\<rparr>
     \<noteq> ''getPlatformVersion''
   \<and> HandleMethodCall example_plugin
        \<lparr>method_name = ''ble#scan'', arguments = EncodableList [EncodableInt32 7]\<rparr> example_host
       = ([NotImplemented], example_host)
   \<and> HandleMethodCall example_plugin \<lparr>method_name = '''', arguments = EncodableNull\<rparr> example_host
       = ([NotImplemented], example_host)
   \<and> HandleMethodCall example_plugin
        \<lparr>method_name = ''getplatformversion'', arguments = EncodableNull\<rparr> example_host
       = ([NotImplemented], example_host)"
  using other_method_not_implemented
      [of "\<lparr>method_name = ''ble#scan'', arguments = EncodableList [EncodableInt32 7]\<rparr>"
          example_plugin example_host]
    other_method_not_implemented
      [of "\<lparr>method_name = '''', arguments = EncodableNull\<rparr>" example_plugin example_host]
    other_method_not_implemented
      [of "\<lparr>method_name = ''getplatformversion'', arguments = EncodableNull\<rparr>"
          example_plugin example_host]
  by simp

text \<open>
  C4. Every call, of any name and with any arguments, makes exactly one call on the
  result object, and that call is \<open>Success\<close>, \<open>Error\<close> or \<open>NotImplemented\<close>.
\<close>

theorem exactly_one_outcome:
  "\<exists>r. fst (HandleMethodCall this method_call h) = [r]
       \<and> ((\<exists>v. r = Success v) \<or> (\<exists>code message details. r = Error code message details)
            \<or> r = NotImplemented)"
  by (simp add: HandleMethodCall_replies)

text \<open>
  C5. Registration constructs one plugin and hands it to the registrar, binds one
  handler, under the channel name \<open>flutter_p2p_connection\<close>, and that handler passes
  every call on, as it is, to \<open>HandleMethodCall\<close> of that plugin.
\<close>

theorem registration_binds_channel:
  "\<exists>plugin handler r' h'.
     RegisterWithRegistrar registrar r h = (r', h')
     \<and> plugins r' = plugins r @ [plugin] \<and> registrar_member plugin = registrar
     \<and> handlers r' = (handlers r)(''flutter_p2p_connection'' \<mapsto> handler)
     \<and> (\<forall>call hh. handler call hh = HandleMethodCall plugin call hh)
     \<and> os_calls h' = os_calls h @ [Call_init_apartment]"
proof -
  let ?p = "\<lparr>registrar_member = registrar\<rparr>"
  have e: "RegisterWithRegistrar registrar r h =
      (r\<lparr>handlers := (handlers r)(''flutter_p2p_connection'' \<mapsto> HandleMethodCall ?p),
         plugins := plugins r @ [?p]\<rparr>,
       invoke Call_init_apartment h)"
    by (simp add: RegisterWithRegistrar_def FlutterP2pConnectionPlugin_ctor_def
        SetMethodCallHandler_def AddPlugin_def METHOD_CHANNEL_NAME_def)
  show ?thesis
    by (rule exI [of _ ?p], rule exI [of _ "HandleMethodCall ?p"]) (simp add: e invoke_simps)
qed

text \<open>
  C6. Over the life of a plugin the apartment is initialised once, first of all, and
  uninitialised once, last of all, with neither call in between; with no calls
  delivered the two follow each other directly; and no call of the dispatcher makes
  either.
\<close>

theorem apartment_symmetry:
  "(\<exists>mid. os_calls (snd (plugin_lifetime registrar calls h)) =
            os_calls h @ [Call_init_apartment] @ mid @ [Call_uninit_apartment]
         \<and> Call_init_apartment \<notin> set mid \<and> Call_uninit_apartment \<notin> set mid)
   \<and> os_calls (snd (plugin_lifetime registrar [] h)) =
        os_calls h @ [Call_init_apartment, Call_uninit_apartment]
   \<and> (\<exists>l. os_calls (snd (HandleMethodCall this method_call h)) = os_calls h @ l
         \<and> Call_init_apartment \<notin> set l \<and> Call_uninit_apartment \<notin> set l)"
proof (intro conjI)
  let ?p = "\<lparr>registrar_member = registrar\<rparr>"
  let ?h1 = "invoke Call_init_apartment h"
  have "snd (plugin_lifetime registrar calls h) =
      invoke Call_uninit_apartment (snd (dispatch_all ?p calls ?h1))"
    by (simp add: plugin_lifetime_def FlutterP2pConnectionPlugin_ctor_def
        FlutterP2pConnectionPlugin_dtor_def split: prod.splits)
  then have "os_calls (snd (plugin_lifetime registrar calls h)) =
      os_calls h @ [Call_init_apartment] @ dispatch_all_log calls ?h1 @ [Call_uninit_apartment]"
    by (simp add: dispatch_all_host invoke_simps)
  then show "\<exists>mid. os_calls (snd (plugin_lifetime registrar calls h)) =
            os_calls h @ [Call_init_apartment] @ mid @ [Call_uninit_apartment]
         \<and> Call_init_apartment \<notin> set mid \<and> Call_uninit_apartment \<notin> set mid"
    using dispatch_all_log_apartment [of calls ?h1] by blast
  show "os_calls (snd (plugin_lifetime registrar [] h)) =
        os_calls h @ [Call_init_apartment, Call_uninit_apartment]"
    by (simp add: plugin_lifetime_def FlutterP2pConnectionPlugin_ctor_def
        FlutterP2pConnectionPlugin_dtor_def invoke_simps)
  show "\<exists>l. os_calls (snd (HandleMethodCall this method_call h)) = os_calls h @ l
         \<and> Call_init_apartment \<notin> set l \<and> Call_uninit_apartment \<notin> set l"
    using dispatch_log_apartment [of method_call h] by (simp add: HandleMethodCall_host)
qed

text \<open>
  C7. In a run of calls named \<open>getPlatformVersion\<close> every call is answered as a single
  call on the initial host would be, whichever plugin object receives it; the run
  changes nothing of the host but its log, and the answer does not depend on the log.
\<close>

theorem getPlatformVersion_idempotent:
  assumes "\<forall>c \<in> set calls. method_name c = ''getPlatformVersion''"
  shows "fst (dispatch_all this calls h) =
           replicate (length calls)
             (fst (HandleMethodCall this'
                     \<lparr>method_name = ''getPlatformVersion'', arguments = a\<rparr> h))
         \<and> (\<exists>l. snd (dispatch_all this calls h) = h\<lparr>os_calls := os_calls h @ l\<rparr>)
         \<and> (\<forall>l. fst (HandleMethodCall this'
                        \<lparr>method_name = ''getPlatformVersion'', arguments = a\<rparr>
                        (h\<lparr>os_calls := l\<rparr>)) =
                  fst (HandleMethodCall this'
                        \<lparr>method_name = ''getPlatformVersion'', arguments = a\<rparr> h))"
proof (intro conjI)
  have "map (\<lambda>c. fst (HandleMethodCall this c h)) calls =
      replicate (length calls)
        (fst (HandleMethodCall this' \<lparr>method_name = ''getPlatformVersion'', arguments = a\<rparr> h))"
    using assms by (induction calls) (simp_all add: HandleMethodCall_replies)
  then show "fst (dispatch_all this calls h) =
           replicate (length calls)
             (fst (HandleMethodCall this'
                     \<lparr>method_name = ''getPlatformVersion'', arguments = a\<rparr> h))"
    by (simp only: dispatch_all_replies)
  show "\<exists>l. snd (dispatch_all this calls h) = h\<lparr>os_calls := os_calls h @ l\<rparr>"
    using dispatch_all_host [of this calls h] by blast
  show "\<forall>l. fst (HandleMethodCall this'
                  \<lparr>method_name = ''getPlatformVersion'', arguments = a\<rparr> (h\<lparr>os_calls := l\<rparr>)) =
             fst (HandleMethodCall this'
                  \<lparr>method_name = ''getPlatformVersion'', arguments = a\<rparr> h)"
    by (simp add: HandleMethodCall_replies wstring_to_string_log_indep)
qed

theorem getPlatformVersion_idempotent_witness:
  "method_name example_call = ''getPlatformVersion''
   \<and> method_name (example_call\<lparr>arguments := EncodableBool True\<rparr>) = ''getPlatformVersion''
   \<and> fst (dispatch_all example_plugin
            [example_call, example_call\<lparr>arguments := EncodableBool True\<rparr>, example_call]
            example_host) =
       [[Success (EncodableString ''Windows 10.0 Build 19045'')],
        [Success (EncodableString ''Windows 10.0 Build 19045'')],
        [Success (EncodableString ''Windows 10.0 Build 19045'')]]"
proof -
  let ?calls = "[example_call, example_call\<lparr>arguments := EncodableBool True\<rparr>, example_call]"
  have n: "\<forall>c \<in> set ?calls. method_name c = ''getPlatformVersion''"
    by (simp add: example_call_def)
  have g: "no_digit_grouping (global_numpunct example_host)"
    by (simp add: example_host_def classic_numpunct_def no_digit_grouping_def)
  have 1: "fst (HandleMethodCall example_plugin
      \<lparr>method_name = ''getPlatformVersion'', arguments = EncodableNull\<rparr> example_host) =
      [Success (EncodableString ''Windows 10.0 Build 19045'')]"
    using g
    by (simp add: HandleMethodCall_version_ok version_string_def example_host_def
        decimal_example)
  show ?thesis
    using n getPlatformVersion_idempotent [OF n, of example_plugin example_host example_plugin
        EncodableNull]
    by (simp add: 1 numeral_3_eq_3)
qed

text \<open>
  C8. Two calls of the same name on the same host get the same answer and leave the same
  host, whatever their arguments.
\<close>

theorem arguments_ignored:
  assumes "method_name call1 = method_name call2"
  shows "HandleMethodCall this call1 h = HandleMethodCall this call2 h"
  using assms by (simp add: HandleMethodCall_def)

theorem arguments_ignored_witness:
  "method_name \<lparr>method_name = ''getPlatformVersion'', arguments = EncodableNull\<rparr> =
     method_name \<lparr>method_name = ''getPlatformVersion'',
                  arguments = EncodableMap [(EncodableString ''k'', EncodableInt64 1)]\<rparr>
   \<and> HandleMethodCall example_plugin
        \<lparr>method_name = ''getPlatformVersion'', arguments = EncodableNull\<rparr> example_host =
      HandleMethodCall example_plugin
        \<lparr>method_name = ''getPlatformVersion'',
          arguments = EncodableMap [(EncodableString ''k'', EncodableInt64 1)]\<rparr> example_host"
  using arguments_ignored
    [of "\<lparr>method_name = ''getPlatformVersion'', arguments = EncodableNull\<rparr>"
        "\<lparr>method_name = ''getPlatformVersion'',
          arguments = EncodableMap [(EncodableString ''k'', EncodableInt64 1)]\<rparr>"
        example_plugin example_host]
  by simp

text \<open>
  C9. For every valid UTF-8 string of fewer than \<open>2 ^ 31\<close> bytes, converting with
  \<open>string_to_wstring\<close> and back with \<open>wstring_to_string\<close> returns the string unchanged.
  Without the bound the statement fails: the cast \<open>(int)str.size()\<close> of a string of
  \<open>2 ^ 32\<close> bytes is 0, the conversion routine fails on length 0, and the round trip
  returns the empty string.
\<close>

theorem round_trip_bounded:
  assumes "valid_utf8 s" and "length s < 2 ^ 31"
  shows "fst (wstring_to_string (fst (string_to_wstring s h)) h') = s"
proof (cases "s = []")
  case True
  then show ?thesis by (simp add: string_to_wstring_def wstring_to_string_def)
next
  case False
  define units where "units = utf8_to_utf16 (map of_char s)"
  define w :: wstring where "w = map of_nat units"
  have rt: "utf16_to_utf8 units = map of_char s"
    unfolding units_def using assms(1) by (simp only: valid_utf8_def utf8_roundtrip)
  have un: "map unat w = units"
    unfolding w_def units_def by (rule map_unat_of_nat_units) (rule utf8_to_utf16_units)
  have ne: "w \<noteq> []"
  proof
    assume "w = []"
    then have "units = []" by (simp add: w_def)
    then have "map of_char s = ([] :: nat list)" using rt by (simp add: utf16_to_utf8_def)
    then show False using False by simp
  qed
  have "length w \<le> length s"
    unfolding w_def units_def using length_utf8_to_utf16 [of "map of_char s"] by simp
  then have len: "length w < 2 ^ 31" using assms(2) by simp
  have 1: "fst (string_to_wstring s h) = w"
    by (simp only: string_to_wstring_eq [OF False assms(2)] fst_conv w_def units_def)
  have "fst (wstring_to_string w h') = map char_of (map of_char s :: nat list)"
    by (simp only: wstring_to_string_eq [OF ne len] fst_conv un rt)
  then show ?thesis by (simp add: 1 comp_def)
qed

theorem round_trip_bounded_witness:
  "valid_utf8 example_string \<and> length example_string < 2 ^ 31
   \<and> fst (wstring_to_string (fst (string_to_wstring example_string example_host)) example_host) = example_string"
proof -
  have v: "valid_utf8 example_string" by (simp add: valid_utf8_def example_string_def in_range_def)
  have l: "length example_string < 2 ^ 31" by (simp add: example_string_def)
  show ?thesis using v l round_trip_bounded [OF v l, of example_host example_host] by simp
qed

theorem round_trip_counterexample:
  "valid_utf8 (replicate (2 ^ 32) CHR ''a'')
   \<and> fst (wstring_to_string (fst (string_to_wstring (replicate (2 ^ 32) CHR ''a'') example_host))
          example_host) \<noteq> replicate (2 ^ 32) CHR ''a''"
proof -
  let ?s = "replicate (2 ^ 32) CHR ''a''"
  have ne: "?s \<noteq> []" by (simp only: replicate_empty) simp
  have len: "int_cast (length ?s) = 0" by (simp only: length_replicate int_cast_wrap)
  have v: "valid_utf8 ?s"
    unfolding valid_utf8_def by (rule well_formed_ascii) (simp only: map_replicate set_replicate_conv_if, simp)
  have "fst (string_to_wstring ?s example_host) = []"
    using ne by (simp only: string_to_wstring_def len MultiByteToWideChar_zero if_False Let_def
        prod.case fst_conv nat_zero_as_int[symmetric] replicate_0) 
  then have "fst (wstring_to_string (fst (string_to_wstring ?s example_host)) example_host) = []"
    by (simp only: wstring_to_string_Nil fst_conv)
  then show ?thesis using v ne by simp
qed

text \<open>
  C10. \<open>string_to_wstring\<close> of the empty string is the empty wide string and
  \<open>wstring_to_string\<close> of the empty wide string is the empty string; the host comes back
  as it was, so neither conversion routine was called.
\<close>

theorem empty_conversions_return_early:
  "string_to_wstring [] h = ([], h) \<and> wstring_to_string [] h = ([], h)"
  by (simp add: string_to_wstring_def wstring_to_string_def)

end
